theory Spec2Isabelle
  imports Complex_Main "HOL-Library.Char_ord" "HOL-Library.List_Lexorder"
    "HOL-Library.Product_Lexorder"
begin

section \<open>Python values and errors\<close>

text \<open>
  Python strings are modelled as \<open>string\<close>, a list of characters, and Python's unbounded
  integers as \<open>int\<close>. Where the result depends on what Python does to a character beyond
  ASCII (case folding), the operation is a parameter of the model. Every \<open>raise\<close> of the
  source is a constructor of \<open>error\<close>, the \<open>ValueError\<close> carrying its message.
\<close>

datatype error =
    ValueError string
  | IndexError
  | KeyError
  | ZeroDivisionError
  | FileNotFoundError

text \<open>
  \<open>str.upper()\<close> on ASCII text, which is all that \<open>_hex6\<close> applies it to (a \<open>#\<close> and hex
  digits, after the pattern has matched).
\<close>

definition upper_char :: "char \<Rightarrow> char" where
  "upper_char c =
     (case map_of (zip ''abcdefghijklmnopqrstuvwxyz'' ''ABCDEFGHIJKLMNOPQRSTUVWXYZ'') c of
        Some u \<Rightarrow> u | None \<Rightarrow> c)"

definition upper :: "string \<Rightarrow> string" where
  "upper s = map upper_char s"

text \<open>\<open>str.strip()\<close>: the characters Python counts as whitespace, removed at both ends.\<close>

definition isspace :: "char \<Rightarrow> bool" where
  "isspace c = (of_char c \<in> {9, 10, 11, 12, 13, 28, 29, 30, 31, 32, 133, 160 :: nat})"

definition strip :: "string \<Rightarrow> string" where
  "strip s = rev (dropWhile isspace (rev (dropWhile isspace s)))"

definition startswith :: "string \<Rightarrow> string \<Rightarrow> bool" where
  "startswith s p = (take (length p) s = p)"

text \<open>A list slice \<open>xs[:n]\<close>: a negative \<open>n\<close> counts from the end.\<close>

definition slice_to :: "int \<Rightarrow> 'a list \<Rightarrow> 'a list" where
  "slice_to n xs =
     (if 0 \<le> n then take (nat n) xs else take (length xs - nat (- n)) xs)"

text \<open>\<open>xs * k\<close>: the list repeated \<open>k\<close> times, empty when \<open>k\<close> is not positive.\<close>

definition list_times :: "'a list \<Rightarrow> int \<Rightarrow> 'a list" where
  "list_times xs k = concat (replicate (nat k) xs)"

section \<open>colorparse.py: the hex branch of the colour parser\<close>

text \<open>The character class \<open>[0-9A-Fa-f]\<close>.\<close>

definition is_hexdigit :: "char \<Rightarrow> bool" where
  "is_hexdigit c = (c \<in> set ''0123456789ABCDEFabcdef'')"

text \<open>\<open>re.fullmatch(r"#[0-9A-Fa-f]{k}", h)\<close>.\<close>

definition fullmatch_hash_hex :: "nat \<Rightarrow> string \<Rightarrow> bool" where
  "fullmatch_hash_hex k h =
     (case h of [] \<Rightarrow> False
      | c # ds \<Rightarrow> c = CHR ''#'' \<and> length ds = k \<and> list_all is_hexdigit ds)"

text \<open>
  \<open>_hex6\<close> (colorparse.py, lines 7-18). \<open>h[1:7]\<close> is \<open>take 6 (drop 1 h)\<close>; the indices
  \<open>h[1], h[2], h[3]\<close> are in range because the match gives \<open>h\<close> four characters.
\<close>

definition hex6 :: "string \<Rightarrow> error + string" where
  "hex6 h0 =
     (let h1 = strip h0;
          h = (if \<not> startswith h1 ''#'' then ''#'' @ h1 else h1)
      in if fullmatch_hash_hex 3 h then
           (let r = h ! 1; g = h ! 2; b = h ! 3
            in Inr (upper [CHR ''#'', r, r, g, g, b, b]))
         else if fullmatch_hash_hex 6 h then Inr (upper h)
         else if fullmatch_hash_hex 8 h then Inr (upper (''#'' @ take 6 (drop 1 h)))
         else Inl (ValueError (''Invalid hex color: '' @ h)))"

text \<open>
  The pattern of \<open>to_hex\<close>, line 138:
  \<open>^#?[0-9A-Fa-f]{3}([0-9A-Fa-f]{3})?([0-9A-Fa-f]{2})?$\<close> under \<open>re.match\<close>. An optional
  \<open>#\<close>, then 3, 3+3, 3+2 or 3+3+2 hex digits; \<open>$\<close> also matches before one final newline.
\<close>

definition re_match_hex :: "string \<Rightarrow> bool" where
  "re_match_hex c =
     (let c1 = (if c \<noteq> [] \<and> last c = CHR 0x0A then butlast c else c);
          ds = (if startswith c1 ''#'' then drop 1 c1 else c1)
      in list_all is_hexdigit ds \<and>
         (length ds = 3 \<or> length ds = 6 \<or> length ds = 5 \<or> length ds = 8))"

text \<open>
  \<open>to_hex\<close> (colorparse.py, lines 126-168). The hex branch is modelled in full. The
  branches after it (functional \<open>rgb()/hsv()/hsl()/hcl()\<close> syntax and named colours,
  lines 141-168) compute in floating point and call matplotlib; they are the parameter
  \<open>other\<close>, applied to the stripped text as the source does.
\<close>

definition to_hex :: "(string \<Rightarrow> error + string) \<Rightarrow> string \<Rightarrow> error + string" where
  "to_hex other color =
     (let c = strip color
      in if re_match_hex c then hex6 c else other c)"

text \<open>
  An instance of \<open>other\<close> for concrete evaluation: no later grammar matches and line 168
  raises.
\<close>

definition reject_other :: "string \<Rightarrow> error + string" where
  "reject_other c = Inl (ValueError (''Unrecognized color: '' @ c))"

text \<open>Canonical hex: \<open>#\<close> and six uppercase hex digits.\<close>

definition is_upper_hexdigit :: "char \<Rightarrow> bool" where
  "is_upper_hexdigit c = (c \<in> set ''0123456789ABCDEF'')"

definition canonical_hex :: "string \<Rightarrow> bool" where
  "canonical_hex s =
     (case s of [] \<Rightarrow> False
      | c # ds \<Rightarrow> c = CHR ''#'' \<and> length ds = 6 \<and> list_all is_upper_hexdigit ds)"

section \<open>palettes.py: palette records and identifier resolution\<close>

text \<open>
  The records of the data files are dicts. A key is absent, present with the value
  \<open>None\<close> (JSON \<open>null\<close>, or a CSV cell that did not convert), or present with a value:
  \<open>d.get(key)\<close> gives \<open>None\<close> in the first two cases, and \<open>d[key]\<close> raises \<open>KeyError\<close> in
  the first.
\<close>

datatype 'a field = Absent | Null | Value 'a

definition get :: "'a field \<Rightarrow> 'a option" where
  "get f = (case f of Absent \<Rightarrow> None | Null \<Rightarrow> None | Value v \<Rightarrow> Some v)"

definition subscript :: "'a field \<Rightarrow> error + 'a option" where
  "subscript f =
     (case f of Absent \<Rightarrow> Inl KeyError | Null \<Rightarrow> Inr None | Value v \<Rightarrow> Inr (Some v))"

text \<open>
  A palette of \<open>palette_list.json\<close>. The two display names are read with
  \<open>str(p.get(key, ""))\<close>, which is \<open>"None"\<close> for a null. The other keys are read with
  \<open>p.get(key, default)\<close> and are absent (\<open>None\<close>) or hold a value of their type; \<open>ptype\<close>
  is the key \<open>"type"\<close>.
\<close>

record palette =
  palette_name :: "string field"
  palette_name_e :: "string field"
  ptype :: "string option"
  color_count :: "int option"
  hex :: "string list option"

definition str_get :: "string field \<Rightarrow> string" where
  "str_get f = (case f of Absent \<Rightarrow> '''' | Null \<Rightarrow> ''None'' | Value s \<Rightarrow> s)"

definition get_or :: "'a option \<Rightarrow> 'a \<Rightarrow> 'a" where
  "get_or v d = (case v of None \<Rightarrow> d | Some x \<Rightarrow> x)"

text \<open>
  What \<open>load_palette_list()\<close> returns: the dict \<open>pl_map\<close> and the list \<open>order\<close> of its
  keys in declaration order.
\<close>

type_synonym palette_list = "(string \<rightharpoonup> palette) \<times> string list"

datatype ident = IntId int | StrId string

text \<open>
  The loop of lines 51-54; falling out of it reaches the \<open>raise KeyError\<close> of line 56, and
  \<open>pl_map[k]\<close> raises \<open>KeyError\<close> for a missing key. Python's \<open>str.lower()\<close>, which folds
  every cased character, is the parameter \<open>lower\<close>.
\<close>

fun name_loop ::
  "(string \<Rightarrow> string) \<Rightarrow> (string \<rightharpoonup> palette) \<Rightarrow> string \<Rightarrow> string list
     \<Rightarrow> error + string \<times> palette" where
  "name_loop lower pl_map low [] = Inl KeyError"
| "name_loop lower pl_map low (k # ks) =
     (case pl_map k of
        None \<Rightarrow> Inl KeyError
      | Some p \<Rightarrow>
          if lower (str_get (palette_name p)) = low
             \<or> lower (str_get (palette_name_e p)) = low
          then Inr (k, p)
          else name_loop lower pl_map low ks)"

text \<open>\<open>_normalize_identifier\<close> (palettes.py, lines 35-56).\<close>

fun normalize_identifier ::
  "(string \<Rightarrow> string) \<Rightarrow> palette_list \<Rightarrow> ident \<Rightarrow> error + string \<times> palette" where
  "normalize_identifier lower (pl_map, order) (IntId x) =
     (if x < 1 \<or> x > int (length order) then Inl IndexError
      else let key = order ! nat (x - 1)
           in case pl_map key of None \<Rightarrow> Inl KeyError | Some p \<Rightarrow> Inr (key, p))"
| "normalize_identifier lower (pl_map, order) (StrId x) =
     (case pl_map x of
        Some p \<Rightarrow> Inr (x, p)
      | None \<Rightarrow> name_loop lower pl_map (lower x) order)"

section \<open>palettes.py: resampling\<close>

text \<open>
  What the code takes from the Python runtime, numpy and matplotlib. A floating-point number
  is the real it denotes; the operations that round are fields of \<open>runtime\<close>, so that
  nothing is assumed about them:
  \<^item> \<open>str_lower\<close> is \<open>str.lower()\<close>;
  \<^item> \<open>from_list base N\<close> is \<open>LinearSegmentedColormap.from_list("_tmp", base, N=N)\<close>: it
    fails, or gives the map from a position to the red, green and blue channels (the
    slice \<open>[:, :3]\<close> of line 75 drops alpha);
  \<^item> \<open>linspace n\<close> is \<open>np.linspace(0, 1, n)\<close>;
  \<^item> \<open>float_mul\<close> is the product of two doubles, as in \<open>c * 255\<close>.
\<close>

type_synonym rgb = "real \<times> real \<times> real"

type_synonym colormap_factory = "string list \<Rightarrow> int \<Rightarrow> error + (real \<Rightarrow> rgb)"

record runtime =
  str_lower :: "string \<Rightarrow> string"
  from_list :: colormap_factory
  linspace :: "int \<Rightarrow> error + real list"
  float_mul :: "real \<Rightarrow> real \<Rightarrow> real"

text \<open>\<open>.astype(int)\<close> on a float: truncation towards zero.\<close>

definition astype_int :: "real \<Rightarrow> int" where
  "astype_int x = (if 0 \<le> x then \<lfloor>x\<rfloor> else \<lceil>x\<rceil>)"

definition hex_digit_char :: "nat \<Rightarrow> char" where
  "hex_digit_char d = ''0123456789ABCDEF'' ! d"

function hex_digits :: "nat \<Rightarrow> string" where
  "hex_digits v =
     (if v < 16 then [hex_digit_char v]
      else hex_digits (v div 16) @ [hex_digit_char (v mod 16)])"
  by pat_completeness auto
termination
  by (relation "measure (\<lambda>v. v)") auto

text \<open>The format \<open>f"{v:02X}"\<close>: uppercase hex, zero-padded to width 2, the sign counted.\<close>

definition format_02X :: "int \<Rightarrow> string" where
  "format_02X v =
     (if 0 \<le> v
      then (let ds = hex_digits (nat v) in replicate (2 - length ds) CHR ''0'' @ ds)
      else CHR ''-'' # hex_digits (nat (- v)))"

text \<open>Lines 74 and 78: \<open>(c * 255).astype(int)\<close> on the three channels, then the format.\<close>

definition rgb_to_hex_int :: "(real \<Rightarrow> real \<Rightarrow> real) \<Rightarrow> rgb \<Rightarrow> string" where
  "rgb_to_hex_int mul c =
     (case c of (r, g, b) \<Rightarrow>
        ''#'' @ concat (map (\<lambda>v. format_02X (astype_int (mul v 255))) [r, g, b]))"

text \<open>\<open>_interpolate_colors\<close> (lines 65-78).\<close>

definition interpolate_colors :: "runtime \<Rightarrow> string list \<Rightarrow> int \<Rightarrow> error + string list" where
  "interpolate_colors rt base n =
     (case from_list rt base (max n 256) of
        Inl e \<Rightarrow> Inl e
      | Inr cmap \<Rightarrow>
          (case linspace rt n of
             Inl e \<Rightarrow> Inl e
           | Inr xs \<Rightarrow> Inr (map (\<lambda>x. rgb_to_hex_int (float_mul rt) (cmap x)) xs)))"

text \<open>\<open>base.index(c)\<close>: the first position of \<open>c\<close>, \<open>None\<close> where Python raises.\<close>

fun index :: "'a list \<Rightarrow> 'a \<Rightarrow> nat option" where
  "index [] c = None"
| "index (x # xs) c = (if x = c then Some 0 else map_option Suc (index xs c))"

text \<open>
  The \<open>while\<close> loop of \<open>_diverging_center_out\<close> (lines 94-104). \<open>li\<close> runs down from
  \<open>mid - 1\<close> to \<open>-1\<close>, \<open>ri\<close> up from \<open>mid + 1\<close>; \<open>base[li]\<close> is only read for
  \<open>0 \<le> li\<close>, and raises past the end.
\<close>

function center_out_loop :: "string list \<Rightarrow> int \<Rightarrow> int \<Rightarrow> nat \<Rightarrow> string list \<Rightarrow> error + string list" where
  "center_out_loop base n li ri out =
     (if \<not> int (length out) < n then Inr out
      else if 0 \<le> li \<and> int (length base) \<le> li then Inl IndexError
      else
        let out1 = (if 0 \<le> li then out @ [base ! nat li] else out)
        in if 0 \<le> li \<and> n \<le> int (length out1) then Inr out1
           else
             let li1 = (if 0 \<le> li then li - 1 else li);
                 out2 = (if ri < length base then out1 @ [base ! ri] else out1);
                 ri2 = (if ri < length base then ri + 1 else ri)
             in if li1 < 0 \<and> length base \<le> ri2 then Inr out2
                else center_out_loop base n li1 ri2 out2)"
  by pat_completeness auto
termination
  by (relation "measure (\<lambda>(base, n, li, ri, out). nat (n - int (length out)))")
    (auto split: if_splits)

declare center_out_loop.simps [simp del]

text \<open>\<open>_diverging_center_out\<close> (lines 81-109).\<close>

definition diverging_center_out :: "string list \<Rightarrow> int \<Rightarrow> error + string list" where
  "diverging_center_out base n =
     (let m = int (length base)
      in if n \<ge> m then Inr (slice_to n base)
         else
           let mid = (m - 1) div 2
           in if n = 1 then Inr [base ! nat mid]
              else if m = 0 then Inl IndexError
              else
                case center_out_loop base n (mid - 1) (nat (mid + 1)) [base ! nat mid] of
                  Inl e \<Rightarrow> Inl e
                | Inr out \<Rightarrow>
                    (case those (map (index base) out) of
                       None \<Rightarrow> Inl (ValueError ''x not in list'')
                     | Some idxs \<Rightarrow>
                         let sorted_pairs = sort (zip idxs out)
                         in Inr (slice_to n (map snd sorted_pairs))))"

text \<open>\<open>get_palette\<close> (lines 145-184), on the loaded palette list.\<close>

definition get_palette ::
  "runtime \<Rightarrow> palette_list \<Rightarrow> ident \<Rightarrow> int option \<Rightarrow> int \<Rightarrow> error + string list" where
  "get_palette rt pls identifier n direction =
     (case normalize_identifier (str_lower rt) pls identifier of
        Inl e \<Rightarrow> Inl e
      | Inr (key, p) \<Rightarrow>
          let base = get_or (hex p) [];
              base_count = get_or (color_count p) (int (length base));
              ptype = get_or (ptype p) ''qualitative'';
              colors =
                (case n of
                   None \<Rightarrow> Inr base
                 | Some n \<Rightarrow>
                     if n > base_count then
                       if ptype = ''sequential'' \<or> ptype = ''diverging''
                       then interpolate_colors rt base n
                       else if length base = 0 then Inl ZeroDivisionError
                       else Inr (slice_to n (list_times base (n div int (length base) + 1)))
                     else
                       if ptype = ''sequential'' \<or> ptype = ''qualitative''
                       then Inr (slice_to n base)
                       else if ptype = ''diverging'' then diverging_center_out base n
                       else Inr (slice_to n base))
          in case colors of
               Inl e \<Rightarrow> Inl e
             | Inr colors \<Rightarrow>
                 let direction = (if direction \<noteq> 1 \<and> direction \<noteq> - 1 then 1 else direction)
                 in Inr (if direction = - 1 then rev colors else colors))"

section \<open>Palette resolution by display name\<close>

text \<open>The test of line 53, and its two halves; \<open>lower\<close> is \<open>str.lower()\<close>.\<close>

definition name_matches :: "(string \<Rightarrow> string) \<Rightarrow> palette \<Rightarrow> string \<Rightarrow> bool" where
  "name_matches lower p x =
     (lower (str_get (palette_name p)) = lower x
      \<or> lower (str_get (palette_name_e p)) = lower x)"

definition primary_matches :: "(string \<Rightarrow> string) \<Rightarrow> palette \<Rightarrow> string \<Rightarrow> bool" where
  "primary_matches lower p x = (lower (str_get (palette_name p)) = lower x)"

definition secondary_matches :: "(string \<Rightarrow> string) \<Rightarrow> palette \<Rightarrow> string \<Rightarrow> bool" where
  "secondary_matches lower p x = (lower (str_get (palette_name_e p)) = lower x)"

text \<open>
  Resolution in the three steps of the specification's wording (exact key, then the
  primary display name over the whole list, then the secondary one), for comparison with
  \<open>normalize_identifier\<close>.
\<close>

definition first_where :: "(palette \<Rightarrow> bool) \<Rightarrow> palette_list \<Rightarrow> (string \<times> palette) option" where
  "first_where f pls =
     (case pls of (pl_map, order) \<Rightarrow>
        find (\<lambda>kp. f (snd kp)) (List.map_filter (\<lambda>k. map_option (Pair k) (pl_map k)) order))"

definition resolve_three_steps ::
  "(string \<Rightarrow> string) \<Rightarrow> palette_list \<Rightarrow> string \<Rightarrow> error + string \<times> palette" where
  "resolve_three_steps lower pls x =
     (case fst pls x of
        Some p \<Rightarrow> Inr (x, p)
      | None \<Rightarrow>
          (case first_where (\<lambda>p. primary_matches lower p x) pls of
             Some kp \<Rightarrow> Inr kp
           | None \<Rightarrow>
               (case first_where (\<lambda>p. secondary_matches lower p x) pls of
                  Some kp \<Rightarrow> Inr kp
                | None \<Rightarrow> Inl KeyError)))"

text \<open>
  \<open>str.lower()\<close> on ASCII text, where it folds the letters \<open>A\<close> to \<open>Z\<close> and nothing else.
  The names and identifiers of the examples below are ASCII.
\<close>

definition ascii_lower_char :: "char \<Rightarrow> char" where
  "ascii_lower_char c =
     (case map_of (zip ''ABCDEFGHIJKLMNOPQRSTUVWXYZ'' ''abcdefghijklmnopqrstuvwxyz'') c of
        Some u \<Rightarrow> u | None \<Rightarrow> c)"

definition ascii_lower :: "string \<Rightarrow> string" where
  "ascii_lower s = map ascii_lower_char s"

text \<open>Palettes with ASCII names for concrete evaluation.\<close>

definition pal_a :: palette where
  "pal_a = \<lparr>palette_name = Value ''Alpha'', palette_name_e = Value ''Foo'',
            ptype = Some ''qualitative'', color_count = Some 2,
            hex = Some [''#111111'', ''#222222'']\<rparr>"

definition pal_b :: palette where
  "pal_b = \<lparr>palette_name = Value ''Foo'', palette_name_e = Value ''Beta'',
            ptype = Some ''diverging'', color_count = Some 5,
            hex = Some [''#111111'', ''#222222'', ''#333333'', ''#222222'', ''#111111'']\<rparr>"

definition two_palettes :: palette_list where
  "two_palettes = ([''a'' \<mapsto> pal_a, ''b'' \<mapsto> pal_b], [''a'', ''b''])"




section \<open>The interpolation in exact arithmetic\<close>

text \<open>
  The specification describes the interpolation mathematically; this section writes that
  description down in exact real arithmetic. It is not a model of matplotlib's table of
  doubles: it gives the value the specification asks for, and an instance of \<open>runtime\<close>
  at which the hypotheses of the theorems below can be met.

  \<open>#RRGGBB\<close> stands for the three bytes divided by 255.
\<close>

definition hex_value :: "char \<Rightarrow> nat" where
  "hex_value c =
     (case map_of (zip ''0123456789ABCDEFabcdef''
                       [0, 1, 2, 3, 4, 5, 6, 7, 8, 9, 10, 11, 12, 13, 14, 15, 10, 11, 12, 13, 14, 15]) c of
        Some v \<Rightarrow> v | None \<Rightarrow> 0)"

definition hex_byte :: "string \<Rightarrow> nat \<Rightarrow> nat" where
  "hex_byte s i = 16 * hex_value (s ! i) + hex_value (s ! Suc i)"

definition to_rgb :: "string \<Rightarrow> rgb" where
  "to_rgb s = (real (hex_byte s 1) / 255, real (hex_byte s 3) / 255, real (hex_byte s 5) / 255)"

definition lerp :: "rgb \<Rightarrow> rgb \<Rightarrow> real \<Rightarrow> rgb" where
  "lerp c d t =
     (case c of (r0, g0, b0) \<Rightarrow> case d of (r1, g1, b1) \<Rightarrow>
        (r0 + t * (r1 - r0), g0 + t * (g1 - g0), b0 + t * (b1 - b0)))"

text \<open>
  The continuous gradient of the specification's wording: piecewise linear in RGB through
  two or more colours \<open>cs\<close>, the \<open>k\<close>-th placed at \<open>k / (m - 1)\<close>.
\<close>

definition gradient :: "rgb list \<Rightarrow> real \<Rightarrow> rgb" where
  "gradient cs x =
     (let t = x * real (length cs - 1);
          k = min (nat \<lfloor>t\<rfloor>) (length cs - 2)
      in lerp (cs ! k) (cs ! Suc k) (t - real k))"

text \<open>The \<open>n\<close> evenly spaced points of \<open>[0, 1]\<close>, both ends included.\<close>

definition evenly_spaced :: "int \<Rightarrow> real list" where
  "evenly_spaced n =
     (if n = 1 then [0]
      else map (\<lambda>i. real i / real_of_int (n - 1)) [0..<nat n])"

text \<open>
  The conversion of the specification's wording: each channel rounded to the nearest
  integer.
\<close>

definition rgb_to_hex_rounded :: "rgb \<Rightarrow> string" where
  "rgb_to_hex_rounded c =
     (case c of (r, g, b) \<Rightarrow>
        ''#'' @ concat (map (\<lambda>v. format_02X (round (v * 255))) [r, g, b]))"

definition interpolate_rounded :: "string list \<Rightarrow> int \<Rightarrow> string list" where
  "interpolate_rounded base n =
     map (\<lambda>x. rgb_to_hex_rounded (gradient (map to_rgb base) x)) (evenly_spaced n)"

text \<open>
  The exact instance of \<open>runtime\<close>: the gradient itself as the colormap of two or more
  canonical colours (a failure otherwise), the evenly spaced points, the exact product,
  and ASCII case folding.
\<close>

definition exact_colormap :: colormap_factory where
  "exact_colormap base N =
     (if length base < 2 \<or> \<not> list_all canonical_hex base
      then Inl (ValueError ''not a gradient'')
      else Inr (gradient (map to_rgb base)))"

definition exact_linspace :: "int \<Rightarrow> error + real list" where
  "exact_linspace n =
     (if n < 0 then Inl (ValueError ''Number of samples must be non-negative.'')
      else Inr (evenly_spaced n))"

definition exact_runtime :: runtime where
  "exact_runtime =
     \<lparr>str_lower = ascii_lower, from_list = exact_colormap, linspace = exact_linspace,
      float_mul = (\<lambda>a b. a * b)\<rparr>"

text \<open>A sequential palette of two colours for concrete evaluation.\<close>

definition pal_s :: palette where
  "pal_s = \<lparr>palette_name = Value ''Reds'', palette_name_e = Value ''reds'',
            ptype = Some ''sequential'', color_count = Some 2,
            hex = Some [''#000000'', ''#630000'']\<rparr>"

definition one_palette :: palette_list where
  "one_palette = ([''s'' \<mapsto> pal_s], [''s''])"

text \<open>The \<open>len\<close> elements of a list from position \<open>lo\<close>: a contiguous run by index.\<close>

definition window :: "'a list \<Rightarrow> nat \<Rightarrow> nat \<Rightarrow> 'a list" where
  "window xs lo len = take len (drop lo xs)"

section \<open>dataset.py: the loaders\<close>

text \<open>A colour of the dataset; the field \<open>color_hex\<close> is the key \<open>"hex"\<close>.\<close>

record color =
  color_id :: "int field"
  name :: "string field"
  color_hex :: "string field"
  group :: "int field"
  group_id :: "int field"
  subgroup :: "int field"
  subgroup_id :: "int field"

text \<open>
  The data files and the effect of reading them: \<open>package_files\<close> are the files of the
  installed package's \<open>data\<close> directory, \<open>fallback_files\<close> those of the repository's, and
  \<open>reads\<close> the log of every file read so far. The module keeps no other state.
\<close>

record storage =
  package_files :: "string \<rightharpoonup> string"
  fallback_files :: "string \<rightharpoonup> string"
  reads :: "string list"

text \<open>\<open>_read_text_from_package\<close> (lines 13-19): a file that cannot be opened gives \<open>None\<close>.\<close>

definition read_text_from_package :: "string \<Rightarrow> storage \<Rightarrow> string option \<times> storage" where
  "read_text_from_package filename st =
     (case package_files st filename of
        None \<Rightarrow> (None, st)
      | Some text \<Rightarrow> (Some text, st\<lparr>reads := reads st @ [''package/'' @ filename]\<rparr>))"

text \<open>\<open>_read_text_fallback\<close> (lines 22-26).\<close>

definition read_text_fallback :: "string \<Rightarrow> storage \<Rightarrow> string option \<times> storage" where
  "read_text_fallback filename st =
     (case fallback_files st filename of
        None \<Rightarrow> (None, st)
      | Some text \<Rightarrow> (Some text, st\<lparr>reads := reads st @ [''fallback/'' @ filename]\<rparr>))"

text \<open>\<open>_load_text\<close> (lines 29-33).\<close>

definition load_text :: "string \<Rightarrow> storage \<Rightarrow> string option \<times> storage" where
  "load_text filename st =
     (case read_text_from_package filename st of
        (None, st1) \<Rightarrow> read_text_fallback filename st1
      | (Some text, st1) \<Rightarrow> (Some text, st1))"

text \<open>
  \<open>_load_json\<close> (lines 36-40); \<open>json.loads\<close> is the parameter \<open>loads\<close>, which fails on text
  that is not JSON.
\<close>

definition load_json :: "(string \<Rightarrow> error + 'j) \<Rightarrow> string \<Rightarrow> storage \<Rightarrow> (error + 'j) \<times> storage" where
  "load_json loads filename st =
     (case load_text filename st of
        (None, st1) \<Rightarrow> (Inl FileNotFoundError, st1)
      | (Some text, st1) \<Rightarrow> (loads text, st1))"

text \<open>
  \<open>load_palette_list\<close> (lines 103-106). The JSON object is a dict: the parser gives its
  map and its keys in declaration order, which are \<open>data\<close> and \<open>list(data.keys())\<close>.
\<close>

definition load_palette_list ::
  "(string \<Rightarrow> error + palette_list) \<Rightarrow> storage \<Rightarrow> (error + palette_list) \<times> storage" where
  "load_palette_list loads st = load_json loads ''palette_list.json'' st"

text \<open>
  \<open>load_chinacolor\<close> (lines 43-100). \<open>read_rows\<close> stands for the \<open>csv.DictReader\<close> loop of
  lines 57-88, which gives the normalised rows; \<open>loads\<close> for \<open>json.loads\<close>. The sort key of
  line 90 is \<open>d.get("color_id") or 10**9\<close>, and \<open>setdefault\<close> gives a colour without
  the key \<open>color_id\<close> its 1-based position.
\<close>

definition sort_key_color_id :: "color \<Rightarrow> int" where
  "sort_key_color_id d =
     (case get (color_id d) of None \<Rightarrow> 10 ^ 9 | Some i \<Rightarrow> if i = 0 then 10 ^ 9 else i)"

definition setdefault_color_id :: "int \<Rightarrow> color \<Rightarrow> color" where
  "setdefault_color_id i d =
     (case color_id d of Absent \<Rightarrow> d\<lparr>color_id := Value i\<rparr> | Null \<Rightarrow> d | Value _ \<Rightarrow> d)"

definition load_chinacolor ::
  "(string \<Rightarrow> error + color list) \<Rightarrow> (string \<Rightarrow> error + color list) \<Rightarrow> storage
     \<Rightarrow> (error + color list) \<times> storage" where
  "load_chinacolor read_rows loads st =
     (case load_text ''chinacolor.csv'' st of
        (Some csv_text, st1) \<Rightarrow>
          (case read_rows csv_text of
             Inl e \<Rightarrow> (Inl e, st1)
           | Inr rows \<Rightarrow> (Inr (sort_key sort_key_color_id rows), st1))
      | (None, st1) \<Rightarrow>
          (case load_json loads ''chinacolor.json'' st1 of
             (Inl e, st2) \<Rightarrow> (Inl e, st2)
           | (Inr data, st2) \<Rightarrow>
               (Inr (map (\<lambda>(i, item). setdefault_color_id (int i) item)
                       (zip [1..<Suc (length data)] data)), st2)))"

section \<open>palettes.py: custom palettes\<close>

text \<open>The truth of \<open>c.get("hex")\<close>: a non-empty string.\<close>

definition truthy_hex :: "color \<Rightarrow> bool" where
  "truthy_hex c = (case get (color_hex c) of None \<Rightarrow> False | Some h \<Rightarrow> h \<noteq> [])"

text \<open>
  The dict comprehensions of lines 211-212: the key is \<open>c.get("color_id")\<close> or
  \<open>c.get("name")\<close>, so \<open>None\<close> for an absent or null one, and a later colour replaces an
  earlier one with the same key.
\<close>

definition id_to_hex :: "color list \<Rightarrow> (int option \<rightharpoonup> string)" where
  "id_to_hex base_colors =
     fold (\<lambda>c m. if truthy_hex c then m(get (color_id c) \<mapsto> get_or (get (color_hex c)) []) else m)
       base_colors Map.empty"

definition name_to_hex :: "color list \<Rightarrow> (string option \<rightharpoonup> string)" where
  "name_to_hex base_colors =
     fold (\<lambda>c m. if truthy_hex c then m(get (name c) \<mapsto> get_or (get (color_hex c)) []) else m)
       base_colors Map.empty"

text \<open>The loop of lines 217-220.\<close>

fun color_ids_loop :: "color list \<Rightarrow> int list \<Rightarrow> (int \<times> string) list \<Rightarrow> (int \<times> string) list" where
  "color_ids_loop base_colors [] chosen = chosen"
| "color_ids_loop base_colors (cid # cids) chosen =
     color_ids_loop base_colors cids
       (case id_to_hex base_colors (Some cid) of
          None \<Rightarrow> chosen
        | Some h \<Rightarrow> chosen @ [(cid, h)])"

text \<open>
  Line 227, \<open>next((c["color_id"] for c in base_colors if c["name"] == nm), None)\<close>: the
  colours are scanned in order, \<open>c["name"]\<close> raises \<open>KeyError\<close> on a colour without that
  key, and the first colour of that name gives its \<open>c["color_id"]\<close>, which raises
  likewise and may be \<open>None\<close>.
\<close>

fun first_color_id :: "color list \<Rightarrow> string \<Rightarrow> error + int option" where
  "first_color_id [] nm = Inr None"
| "first_color_id (c # cs) nm =
     (case subscript (name c) of
        Inl e \<Rightarrow> Inl e
      | Inr v \<Rightarrow>
          if v = Some nm then subscript (color_id c)
          else first_color_id cs nm)"

text \<open>The loop of lines 223-228; \<open>10**9\<close> stands in for a \<open>color_id\<close> that is \<open>None\<close>.\<close>

fun names_loop ::
  "color list \<Rightarrow> string list \<Rightarrow> (int \<times> string) list \<Rightarrow> error + (int \<times> string) list" where
  "names_loop base_colors [] chosen = Inr chosen"
| "names_loop base_colors (nm # nms) chosen =
     (case name_to_hex base_colors (Some nm) of
        None \<Rightarrow> names_loop base_colors nms chosen
      | Some h \<Rightarrow>
          (case first_color_id base_colors nm of
             Inl e \<Rightarrow> Inl e
           | Inr cid \<Rightarrow> names_loop base_colors nms (chosen @ [(get_or cid (10 ^ 9), h)])))"

text \<open>The loop of lines 231-237: any exception of \<open>to_hex\<close> skips the entry.\<close>

fun hexes_loop ::
  "(string \<Rightarrow> error + string) \<Rightarrow> string list \<Rightarrow> (int \<times> string) list \<Rightarrow> (int \<times> string) list" where
  "hexes_loop other [] chosen = chosen"
| "hexes_loop other (hx # hxs) chosen =
     hexes_loop other hxs
       (case to_hex other hx of
          Inl e \<Rightarrow> chosen
        | Inr hx_norm \<Rightarrow> chosen @ [(10 ^ 9 + int (length chosen), hx_norm)])"

text \<open>
  Lines 243-251: the subgroup lists, one per group; a shorter list is extended with its
  last element, and \<open>subgroups[-1]\<close> raises on an empty list.
\<close>

definition normalize_subgroups :: "int list \<Rightarrow> int list list option \<Rightarrow> error + int list list" where
  "normalize_subgroups groups subgroups =
     (case subgroups of
        None \<Rightarrow> Inr (map (\<lambda>_. [1, 2, 3, 4]) groups)
      | Some sgs \<Rightarrow>
          if length sgs < length groups then
            (if sgs = [] then Inl IndexError
             else Inr (sgs @ replicate (length groups - length sgs) (last sgs)))
          else Inr sgs)"

text \<open>Lines 254-268, for one group and its subgroup list.\<close>

definition group_matches :: "color list \<Rightarrow> int \<Rightarrow> int \<Rightarrow> (int \<times> string) list" where
  "group_matches base_colors g s =
     List.map_filter
       (\<lambda>c. let gval = (if get (group c) \<noteq> None then get (group c) else get (group_id c));
                sval = (if get (subgroup c) \<noteq> None then get (subgroup c)
                        else get (subgroup_id c))
            in if gval = Some g \<and> sval = Some s
               then (case get (color_id c) of
                       None \<Rightarrow> None
                     | Some cid \<Rightarrow>
                         if truthy_hex c then Some (cid, get_or (get (color_hex c)) []) else None)
               else None)
       base_colors"

definition group_loop :: "color list \<Rightarrow> int list \<Rightarrow> int list list \<Rightarrow> (int \<times> string) list" where
  "group_loop base_colors groups subgroups =
     concat (map (\<lambda>(g, s_list0).
                    let s_list = (if length s_list0 = 1 \<and> s_list0 ! 0 = - 1
                                  then [4, 3, 2, 1] else s_list0)
                    in concat (map (group_matches base_colors g) s_list))
                 (zip groups subgroups))"

text \<open>Lines 214-268: the candidates in collection order.\<close>

definition chosen_colors ::
  "(string \<Rightarrow> error + string) \<Rightarrow> color list \<Rightarrow> int list \<Rightarrow> string list \<Rightarrow> string list
     \<Rightarrow> int list option \<Rightarrow> int list list option \<Rightarrow> error + (int \<times> string) list" where
  "chosen_colors other base_colors color_ids names hexes groups subgroups =
     (let chosen = color_ids_loop base_colors color_ids []
      in case names_loop base_colors names chosen of
           Inl e \<Rightarrow> Inl e
         | Inr chosen \<Rightarrow>
             let chosen = hexes_loop other hexes chosen
             in case groups of
                  None \<Rightarrow> Inr chosen
                | Some gs \<Rightarrow>
                    (case normalize_subgroups gs subgroups of
                       Inl e \<Rightarrow> Inl e
                     | Inr sgs \<Rightarrow> Inr (chosen @ group_loop base_colors gs sgs)))"

text \<open>Lines 271-276: the first occurrence of each hex value.\<close>

fun dedup_loop :: "(int \<times> string) list \<Rightarrow> string set \<Rightarrow> (int \<times> string) list" where
  "dedup_loop [] seen = []"
| "dedup_loop ((cid, hx) # rest) seen =
     (if hx \<notin> seen then (cid, hx) # dedup_loop rest (insert hx seen)
      else dedup_loop rest seen)"

definition no_colors_selected :: error where
  "no_colors_selected = ValueError ''No colors selected. Provide color_ids, names or hexes.''"

text \<open>
  \<open>custom_palette\<close> (lines 187-297), on the loaded colours. An absent \<open>color_ids\<close>,
  \<open>names\<close> or \<open>hexes\<close> is the empty list (the source tests their truth). The sort key
  \<open>(t[0], t[1])\<close> is the pair itself, so \<open>reverse=True\<close> gives the reversed sorted list.
\<close>

definition custom_palette ::
  "(string \<Rightarrow> error + string) \<Rightarrow> color list \<Rightarrow> int list \<Rightarrow> string list \<Rightarrow> string list
     \<Rightarrow> int list option \<Rightarrow> int list list option \<Rightarrow> int \<Rightarrow> int option \<Rightarrow> int
     \<Rightarrow> error + string list" where
  "custom_palette other base_colors color_ids names hexes groups subgroups order n direction =
     (case chosen_colors other base_colors color_ids names hexes groups subgroups of
        Inl e \<Rightarrow> Inl e
      | Inr chosen \<Rightarrow>
          let dedup = dedup_loop chosen {}
          in if dedup = [] then Inl no_colors_selected
             else
               let dedup = (if order = 0 then sort dedup
                            else if order = - 1 then rev (sort dedup)
                            else dedup);
                   colors = map snd dedup;
                   colors =
                     (case n of
                        None \<Rightarrow> colors
                      | Some n \<Rightarrow>
                          if n > int (length colors)
                          then slice_to n (list_times colors (n div int (length colors) + 1))
                          else slice_to n colors)
               in Inr (if direction = - 1 then rev colors else colors))"

text \<open>Two colours for concrete evaluation, and a colour without the key \<open>name\<close>.\<close>

definition c1 :: color where
  "c1 = \<lparr>color_id = Value 1, name = Value ''red'', color_hex = Value ''#FF0000'',
         group = Value 1, group_id = Value 1, subgroup = Value 1, subgroup_id = Value 1\<rparr>"

definition c5 :: color where
  "c5 = \<lparr>color_id = Value 5, name = Value ''blue'', color_hex = Value ''#0000FF'',
         group = Value 1, group_id = Value 1, subgroup = Value 2, subgroup_id = Value 2\<rparr>"

definition two_colors :: "color list" where
  "two_colors = [c1, c5]"


text \<open>A storage with the packaged palette file, and a parser of two texts.\<close>

definition storage0 :: storage where
  "storage0 = \<lparr>package_files = [''palette_list.json'' \<mapsto> ''A''],
               fallback_files = Map.empty, reads = []\<rparr>"

definition loads_ab :: "string \<Rightarrow> error + palette_list" where
  "loads_ab text = (if text = ''A'' then Inr two_palettes else Inr one_palette)"

section \<open>Properties of the colour parser\<close>

lemma is_hexdigit_not_space: "is_hexdigit c \<Longrightarrow> \<not> isspace c"
  by (auto simp: is_hexdigit_def isspace_def)

lemma is_hexdigit_not_hash: "is_hexdigit c \<Longrightarrow> c \<noteq> CHR ''#''"
  by (auto simp: is_hexdigit_def)

lemma is_hexdigit_not_newline: "is_hexdigit c \<Longrightarrow> c \<noteq> CHR 0x0A"
  by (auto simp: is_hexdigit_def)

lemma upper_hexdigit: "is_hexdigit c \<Longrightarrow> is_upper_hexdigit (upper_char c)"
  unfolding is_hexdigit_def
  by (simp, elim disjE; simp add: is_upper_hexdigit_def upper_char_def)

lemma upper_hash: "upper_char CHR ''#'' = CHR ''#''"
  by (simp add: upper_char_def)

lemma strip_no_space_ends:
  assumes "s \<noteq> []" "\<not> isspace (hd s)" "\<not> isspace (last s)"
  shows "strip s = s"
proof -
  from assms have a: "dropWhile isspace s = s"
    by (cases s) auto
  from assms have "rev s \<noteq> []" "\<not> isspace (hd (rev s))"
    by (auto simp: hd_rev)
  then have "dropWhile isspace (rev s) = rev s"
    by (cases "rev s") auto
  with a show ?thesis by (simp add: strip_def)
qed

lemma strip_hexdigits:
  assumes "list_all is_hexdigit ds" "ds \<noteq> []"
  shows "strip ds = ds"
proof (rule strip_no_space_ends)
  show "ds \<noteq> []" by fact
  from assms have "is_hexdigit (hd ds)" "is_hexdigit (last ds)"
    by (auto simp: list_all_iff)
  then show "\<not> isspace (hd ds)" "\<not> isspace (last ds)"
    by (auto dest: is_hexdigit_not_space)
qed

lemma strip_hash_hexdigits:
  assumes "list_all is_hexdigit ds" "ds \<noteq> []"
  shows "strip (CHR ''#'' # ds) = CHR ''#'' # ds"
proof (rule strip_no_space_ends)
  from assms have "is_hexdigit (last ds)"
    by (auto simp: list_all_iff)
  then show "\<not> isspace (last (CHR ''#'' # ds))"
    using assms(2) by (auto dest: is_hexdigit_not_space)
qed (auto simp: isspace_def)

lemma startswith_hash_Cons [simp]: "startswith (c # s) ''#'' = (c = CHR ''#'')"
  by (simp add: startswith_def)

lemma startswith_hash_Nil [simp]: "startswith [] ''#'' = False"
  by (simp add: startswith_def)

lemma upper_Cons_hash: "upper (CHR ''#'' # ds) = CHR ''#'' # upper ds"
  by (simp add: upper_def upper_hash)

lemma last_hexdigits_not_newline:
  assumes "list_all is_hexdigit ds" "ds \<noteq> []"
  shows "last ds \<noteq> CHR 0x0A"
proof -
  from assms have "is_hexdigit (last ds)" by (auto simp: list_all_iff)
  then show ?thesis by (rule is_hexdigit_not_newline)
qed

lemma hd_hexdigits_not_hash:
  assumes "list_all is_hexdigit ds" "ds \<noteq> []"
  shows "\<not> startswith ds ''#''"
  using assms by (cases ds) (auto dest: is_hexdigit_not_hash)

lemma re_match_hex_hash:
  assumes "list_all is_hexdigit ds" "length ds = 3 \<or> length ds = 6 \<or> length ds = 8"
  shows "re_match_hex (CHR ''#'' # ds)"
proof -
  from assms(2) have ne: "ds \<noteq> []" by auto
  with assms(1) have "last ds \<noteq> CHR 0x0A" by (rule last_hexdigits_not_newline)
  with ne assms show ?thesis by (auto simp: re_match_hex_def)
qed

lemma re_match_hex_nohash:
  assumes "list_all is_hexdigit ds" "length ds = 3 \<or> length ds = 6 \<or> length ds = 8"
  shows "re_match_hex ds"
proof -
  from assms(2) have ne: "ds \<noteq> []" by auto
  have "last ds \<noteq> CHR 0x0A"
    using assms(1) ne by (rule last_hexdigits_not_newline)
  moreover have "\<not> startswith ds ''#''"
    using assms(1) ne by (rule hd_hexdigits_not_hash)
  ultimately show ?thesis using ne assms by (auto simp: re_match_hex_def)
qed

lemma hex6_nohash:
  assumes "list_all is_hexdigit ds" "ds \<noteq> []"
  shows "hex6 ds = hex6 (CHR ''#'' # ds)"
proof -
  have "strip ds = ds" "strip (CHR ''#'' # ds) = CHR ''#'' # ds"
    using assms by (rule strip_hexdigits, rule strip_hash_hexdigits)
  moreover have "\<not> startswith ds ''#''"
    using assms by (rule hd_hexdigits_not_hash)
  ultimately show ?thesis by (simp add: hex6_def)
qed

lemma hex6_hash3:
  assumes "is_hexdigit r" "is_hexdigit g" "is_hexdigit b"
  shows "hex6 [CHR ''#'', r, g, b] = Inr (CHR ''#'' # upper [r, r, g, g, b, b])"
proof -
  have "strip (CHR ''#'' # [r, g, b]) = CHR ''#'' # [r, g, b]"
    using assms by (intro strip_hash_hexdigits) auto
  then show ?thesis
    using assms by (simp add: hex6_def fullmatch_hash_hex_def upper_Cons_hash)
qed

lemma hex6_hash6:
  assumes "list_all is_hexdigit ds" "length ds = 6"
  shows "hex6 (CHR ''#'' # ds) = Inr (CHR ''#'' # upper ds)"
proof -
  from assms(2) have "ds \<noteq> []" by auto
  with assms(1) have "strip (CHR ''#'' # ds) = CHR ''#'' # ds"
    by (rule strip_hash_hexdigits)
  then show ?thesis
    using assms by (simp add: hex6_def fullmatch_hash_hex_def upper_Cons_hash)
qed

lemma hex6_hash8:
  assumes "list_all is_hexdigit ds" "length ds = 8"
  shows "hex6 (CHR ''#'' # ds) = Inr (CHR ''#'' # upper (take 6 ds))"
proof -
  from assms(2) have "ds \<noteq> []" by auto
  with assms(1) have "strip (CHR ''#'' # ds) = CHR ''#'' # ds"
    by (rule strip_hash_hexdigits)
  then show ?thesis
    using assms by (simp add: hex6_def fullmatch_hash_hex_def upper_Cons_hash)
qed

lemma to_hex_hash:
  assumes "list_all is_hexdigit ds" "length ds = 3 \<or> length ds = 6 \<or> length ds = 8"
  shows "to_hex other (CHR ''#'' # ds) = hex6 (CHR ''#'' # ds)"
proof -
  from assms(2) have "ds \<noteq> []" by auto
  with assms(1) have "strip (CHR ''#'' # ds) = CHR ''#'' # ds"
    by (rule strip_hash_hexdigits)
  with re_match_hex_hash [OF assms] show ?thesis by (simp add: to_hex_def)
qed

lemma to_hex_nohash:
  assumes "list_all is_hexdigit ds" "length ds = 3 \<or> length ds = 6 \<or> length ds = 8"
  shows "to_hex other ds = hex6 (CHR ''#'' # ds)"
proof -
  from assms(2) have ne: "ds \<noteq> []" by auto
  with assms(1) have "strip ds = ds" by (rule strip_hexdigits)
  with re_match_hex_nohash [OF assms] hex6_nohash [OF assms(1) ne]
  show ?thesis by (simp add: to_hex_def)
qed

lemma canonical_upper:
  assumes "list_all is_hexdigit ds" "length ds = 6"
  shows "canonical_hex (CHR ''#'' # upper ds)"
  using assms by (auto simp: canonical_hex_def upper_def list_all_iff intro: upper_hexdigit)

text \<open>
  Claim C8. For hex digits \<open>r g b\<close>, \<open>a1 a2\<close> and six hex digits \<open>ds\<close>: \<open>to_hex\<close> maps \<open>#rgb\<close>
  to \<open>#\<close> followed by the uppercased \<open>rrggbb\<close>, \<open>#ds\<close> to \<open>#\<close> and the uppercased
  \<open>ds\<close>, and \<open>#ds a1 a2\<close> to the same string (the alpha pair is dropped); the results are
  canonical (\<open>#\<close> and six uppercase hex digits), and the shorthand, the six-digit and
  the eight-digit form of one colour give the same result.
\<close>

theorem to_hex_hex_forms:
  assumes "is_hexdigit r" "is_hexdigit g" "is_hexdigit b"
    and "is_hexdigit a1" "is_hexdigit a2"
    and "list_all is_hexdigit ds" "length ds = 6"
  shows "to_hex other [CHR ''#'', r, g, b] = Inr (CHR ''#'' # upper [r, r, g, g, b, b])
       \<and> to_hex other (CHR ''#'' # ds) = Inr (CHR ''#'' # upper ds)
       \<and> to_hex other (CHR ''#'' # ds @ [a1, a2]) = Inr (CHR ''#'' # upper ds)
       \<and> canonical_hex (CHR ''#'' # upper [r, r, g, g, b, b])
       \<and> canonical_hex (CHR ''#'' # upper ds)
       \<and> to_hex other [CHR ''#'', r, g, b] = to_hex other [CHR ''#'', r, r, g, g, b, b]
       \<and> to_hex other [CHR ''#'', r, g, b] = to_hex other [CHR ''#'', r, r, g, g, b, b, a1, a2]"
proof -
  have three: "to_hex other [CHR ''#'', r, g, b] = Inr (CHR ''#'' # upper [r, r, g, g, b, b])"
    using assms(1-3) to_hex_hash [of "[r, g, b]" other] hex6_hash3 [of r g b] by simp
  have six: "to_hex other (CHR ''#'' # xs) = Inr (CHR ''#'' # upper xs)"
    if "list_all is_hexdigit xs" "length xs = 6" for xs
    using that to_hex_hash [of xs other] hex6_hash6 [of xs] by simp
  have eight: "to_hex other (CHR ''#'' # xs @ [a1, a2]) = Inr (CHR ''#'' # upper xs)"
    if "list_all is_hexdigit xs" "length xs = 6" for xs
    using that assms(4,5) to_hex_hash [of "xs @ [a1, a2]" other] hex6_hash8 [of "xs @ [a1, a2]"]
    by simp
  have rgb: "list_all is_hexdigit [r, r, g, g, b, b]" "length [r, r, g, g, b, b] = 6"
    using assms(1-3) by simp_all
  show ?thesis
    using three six [OF assms(6,7)] eight [OF assms(6,7)] six [OF rgb] eight [OF rgb]
      canonical_upper [OF rgb] canonical_upper [OF assms(6,7)]
    by simp
qed

theorem to_hex_hex_forms_witness:
  "to_hex reject_other ''#abc'' = Inr ''#AABBCC''
   \<and> to_hex reject_other ''#a1b2c3'' = Inr ''#A1B2C3''
   \<and> to_hex reject_other ''#a1b2c3dd'' = Inr ''#A1B2C3''
   \<and> canonical_hex ''#AABBCC''
   \<and> to_hex reject_other ''#abc'' = to_hex reject_other ''#aabbcc''
   \<and> to_hex reject_other ''#abc'' = to_hex reject_other ''#aabbccdd''"
  using to_hex_hex_forms [of "CHR ''a''" "CHR ''b''" "CHR ''c''" "CHR ''d''" "CHR ''d''"
      "''a1b2c3''" reject_other]
  by (auto simp: is_hexdigit_def upper_def upper_char_def)

text \<open>
  Claim C9. A string of 3, 6 or 8 hex digits without the leading \<open>#\<close> is parsed, to a
  canonical hex string, and to the same result as the string with \<open>#\<close> put in front.
\<close>

theorem to_hex_without_hash:
  assumes "list_all is_hexdigit s" "length s = 3 \<or> length s = 6 \<or> length s = 8"
  shows "to_hex other s = to_hex other (CHR ''#'' # s) \<and> (\<exists>h. to_hex other s = Inr h \<and> canonical_hex h)"
proof -
  have eq: "to_hex other s = to_hex other (CHR ''#'' # s)"
    using to_hex_hash [OF assms] to_hex_nohash [OF assms] by simp
  have "\<exists>h. hex6 (CHR ''#'' # s) = Inr h \<and> canonical_hex h"
    using assms(2)
  proof (elim disjE)
    assume "length s = 3"
    then obtain r g b where s: "s = [r, g, b]"
      by (auto simp: numeral_3_eq_3 length_Suc_conv)
    with assms(1) have d: "is_hexdigit r" "is_hexdigit g" "is_hexdigit b" by auto
    then have "canonical_hex (CHR ''#'' # upper [r, r, g, g, b, b])"
      by (intro canonical_upper) auto
    with hex6_hash3 [OF d] s show ?thesis by simp
  next
    assume "length s = 6"
    with assms(1) hex6_hash6 [of s] canonical_upper [of s] show ?thesis by simp
  next
    assume l: "length s = 8"
    have "list_all is_hexdigit (take 6 s)"
      using assms(1) by (auto simp: list_all_iff dest: in_set_takeD)
    moreover have "length (take 6 s) = 6" using l by simp
    ultimately have "canonical_hex (CHR ''#'' # upper (take 6 s))"
      by (rule canonical_upper)
    with hex6_hash8 [OF assms(1) l] show ?thesis by simp
  qed
  with eq to_hex_hash [OF assms, of other] show ?thesis by simp
qed

theorem to_hex_without_hash_witness:
  "to_hex reject_other ''1aF'' = to_hex reject_other ''#1aF''
   \<and> (\<exists>h. to_hex reject_other ''1aF'' = Inr h \<and> canonical_hex h)"
proof -
  have a: "list_all is_hexdigit ''1aF''"
    by (simp add: is_hexdigit_def)
  have b: "length ''1aF'' = 3 \<or> length ''1aF'' = 6 \<or> length ''1aF'' = 8"
    by simp
  show ?thesis by (rule to_hex_without_hash [OF a b])
qed

section \<open>Properties of palette resolution\<close>

lemma name_loop_first:
  assumes "i < length order" "pl_map (order ! i) = Some p" "name_matches lower p x"
    and "\<And>j. j < i \<Longrightarrow> \<exists>q. pl_map (order ! j) = Some q \<and> \<not> name_matches lower q x"
  shows "name_loop lower pl_map (lower x) order = Inr (order ! i, p)"
  using assms
proof (induction order arbitrary: i)
  case Nil
  then show ?case by simp
next
  case (Cons k ks)
  show ?case
  proof (cases i)
    case 0
    with Cons.prems show ?thesis by (simp add: name_matches_def)
  next
    case (Suc i')
    from Cons.prems(4) [of 0] Suc obtain q where q: "pl_map k = Some q" "\<not> name_matches lower q x"
      by auto
    have "name_loop lower pl_map (lower x) ks = Inr (ks ! i', p)"
    proof (rule Cons.IH)
      show "i' < length ks" using Cons.prems(1) Suc by simp
      show "pl_map (ks ! i') = Some p" using Cons.prems(2) Suc by simp
      show "name_matches lower p x" by fact
      show "\<exists>q. pl_map (ks ! j) = Some q \<and> \<not> name_matches lower q x" if "j < i'" for j
        using Cons.prems(4) [of "Suc j"] that Suc by simp
    qed
    with q Suc show ?thesis by (simp add: name_matches_def)
  qed
qed

lemma name_loop_none:
  assumes "\<And>k. k \<in> set order \<Longrightarrow> \<exists>q. pl_map k = Some q \<and> \<not> name_matches lower q x"
  shows "name_loop lower pl_map (lower x) order = Inl KeyError"
  using assms
proof (induction order)
  case Nil
  then show ?case by simp
next
  case (Cons k ks)
  from Cons.prems [of k] obtain q where "pl_map k = Some q" "\<not> name_matches lower q x" by auto
  moreover have "name_loop lower pl_map (lower x) ks = Inl KeyError"
    by (rule Cons.IH) (simp add: Cons.prems)
  ultimately show ?case by (simp add: name_matches_def)
qed

text \<open>
  Claim C4, as amended. For a string identifier \<open>x\<close>: a palette whose key is exactly
  \<open>x\<close> is returned; otherwise the first palette in declaration order whose primary or
  secondary display name equals \<open>x\<close> case-insensitively is returned (one pass, either
  name); and when no palette matches, the call fails with \<open>KeyError\<close>.
\<close>

theorem normalize_identifier_first_match:
  "(\<forall>p. pl_map x = Some p \<longrightarrow> normalize_identifier lower (pl_map, order) (StrId x) = Inr (x, p))
   \<and> (pl_map x = None \<longrightarrow>
        (\<forall>i p. i < length order \<and> pl_map (order ! i) = Some p \<and> name_matches lower p x
               \<and> (\<forall>j<i. \<exists>q. pl_map (order ! j) = Some q \<and> \<not> name_matches lower q x)
           \<longrightarrow> normalize_identifier lower (pl_map, order) (StrId x) = Inr (order ! i, p))
        \<and> ((\<forall>k\<in>set order. \<exists>q. pl_map k = Some q \<and> \<not> name_matches lower q x)
           \<longrightarrow> normalize_identifier lower (pl_map, order) (StrId x) = Inl KeyError))"
proof (intro conjI allI impI)
  fix p assume "pl_map x = Some p"
  then show "normalize_identifier lower (pl_map, order) (StrId x) = Inr (x, p)" by simp
next
  fix i p
  assume n: "pl_map x = None"
    and h: "i < length order \<and> pl_map (order ! i) = Some p \<and> name_matches lower p x
      \<and> (\<forall>j<i. \<exists>q. pl_map (order ! j) = Some q \<and> \<not> name_matches lower q x)"
  from h have "name_loop lower pl_map (lower x) order = Inr (order ! i, p)"
    by (intro name_loop_first) auto
  with n show "normalize_identifier lower (pl_map, order) (StrId x) = Inr (order ! i, p)" by simp
next
  assume n: "pl_map x = None"
    and h: "\<forall>k\<in>set order. \<exists>q. pl_map k = Some q \<and> \<not> name_matches lower q x"
  from h have "name_loop lower pl_map (lower x) order = Inl KeyError"
    by (intro name_loop_none) auto
  with n show "normalize_identifier lower (pl_map, order) (StrId x) = Inl KeyError" by simp
qed



theorem normalize_identifier_first_match_witness:
  "normalize_identifier ascii_lower two_palettes (StrId ''FOO'') = Inr (''a'', pal_a)"
proof -
  have none: "fst two_palettes ''FOO'' = None"
    by (simp add: two_palettes_def)
  have hit: "0 < length (snd two_palettes) \<and> fst two_palettes (snd two_palettes ! 0) = Some pal_a
      \<and> name_matches ascii_lower pal_a ''FOO''
      \<and> (\<forall>j<0. \<exists>q. fst two_palettes (snd two_palettes ! j) = Some q \<and> \<not> name_matches ascii_lower q ''FOO'')"
    by (simp add: two_palettes_def pal_a_def name_matches_def str_get_def ascii_lower_def ascii_lower_char_def)
  from normalize_identifier_first_match [of "fst two_palettes" "''FOO''" ascii_lower "snd two_palettes"] none
  have "\<forall>i p. i < length (snd two_palettes) \<and> fst two_palettes (snd two_palettes ! i) = Some p
      \<and> name_matches ascii_lower p ''FOO''
      \<and> (\<forall>j<i. \<exists>q. fst two_palettes (snd two_palettes ! j) = Some q \<and> \<not> name_matches ascii_lower q ''FOO'')
      \<longrightarrow> normalize_identifier ascii_lower (fst two_palettes, snd two_palettes) (StrId ''FOO'')
          = Inr (snd two_palettes ! i, p)"
    by blast
  then have "normalize_identifier ascii_lower (fst two_palettes, snd two_palettes) (StrId ''FOO'')
      = Inr (snd two_palettes ! 0, pal_a)"
    using hit by blast
  then show ?thesis by (simp add: two_palettes_def)
qed

text \<open>
  Claim C4 as stated fails: \<open>foo\<close> is the secondary name of the first palette and the
  primary name of the second; the code returns the first, the three-step resolution the
  second.
\<close>

theorem primary_precedence_counterexample:
  "normalize_identifier ascii_lower two_palettes (StrId ''foo'') = Inr (''a'', pal_a)
   \<and> resolve_three_steps ascii_lower two_palettes ''foo'' = Inr (''b'', pal_b)
   \<and> normalize_identifier ascii_lower two_palettes (StrId ''foo'') \<noteq> resolve_three_steps ascii_lower two_palettes ''foo''"
proof -
  have a: "normalize_identifier ascii_lower two_palettes (StrId ''foo'') = Inr (''a'', pal_a)"
    by (simp add: two_palettes_def pal_a_def str_get_def ascii_lower_def ascii_lower_char_def)
  have b: "resolve_three_steps ascii_lower two_palettes ''foo'' = Inr (''b'', pal_b)"
    by (simp add: two_palettes_def pal_a_def pal_b_def resolve_three_steps_def first_where_def
      primary_matches_def secondary_matches_def str_get_def ascii_lower_def ascii_lower_char_def
      List.map_filter_simps)
  show ?thesis unfolding a b by simp
qed

section \<open>Properties of get_palette\<close>




text \<open>
  Claim C5. The result for direction \<open>-1\<close> is the result for direction \<open>1\<close> reversed (an
  error is the same error), and any direction other than \<open>1\<close> and \<open>-1\<close> gives the result of
  direction \<open>1\<close>.
\<close>

theorem get_palette_direction:
  assumes "d \<noteq> 1" "d \<noteq> - 1"
  shows "get_palette rt pls identifier n (- 1)
           = map_sum id rev (get_palette rt pls identifier n 1)
       \<and> get_palette rt pls identifier n d = get_palette rt pls identifier n 1"
  using assms
  by (auto simp: get_palette_def Let_def split: sum.splits prod.splits)

theorem get_palette_direction_witness:
  "get_palette exact_runtime two_palettes (StrId ''b'') (Some 3) (- 1)
     = map_sum id rev (get_palette exact_runtime two_palettes (StrId ''b'') (Some 3) 1)
   \<and> get_palette exact_runtime two_palettes (StrId ''b'') (Some 3) 7
     = get_palette exact_runtime two_palettes (StrId ''b'') (Some 3) 1"
proof -
  have d: "(7::int) \<noteq> 1" "(7::int) \<noteq> - 1" by simp_all
  show ?thesis by (rule get_palette_direction [OF d])
qed




section \<open>Properties of the interpolation\<close>

lemma astype_int_between:
  assumes "real_of_int k \<le> x" "x < real_of_int k + 1" "0 \<le> k"
  shows "astype_int x = k"
proof -
  have "0 \<le> x" using assms(1,3) by linarith
  moreover have "\<lfloor>x\<rfloor> = k" using assms(1,2) by linarith
  ultimately show ?thesis by (simp add: astype_int_def)
qed

lemma format_02X_24: "format_02X 24 = ''18''"
  by (simp add: format_02X_def hex_digit_char_def)

lemma format_02X_0: "format_02X 0 = ''00''"
  by (simp add: format_02X_def hex_digit_char_def)

lemma rgb_to_hex_int_180000:
  assumes "24 \<le> mul r 255" "mul r 255 < 25"
    and "0 \<le> mul g 255" "mul g 255 < 1" and "0 \<le> mul b 255" "mul b 255 < 1"
  shows "rgb_to_hex_int mul (r, g, b) = ''#180000''"
proof -
  have "astype_int (mul r 255) = 24" "astype_int (mul g 255) = 0" "astype_int (mul b 255) = 0"
    using assms by (auto intro!: astype_int_between)
  then show ?thesis by (simp add: rgb_to_hex_int_def format_02X_24 format_02X_0)
qed

lemma interpolate_rounded_second:
  "interpolate_rounded [''#000000'', ''#630000''] 5 ! 1 = ''#190000''"
  by (simp add: interpolate_rounded_def evenly_spaced_def upt_conv_Cons gradient_def
      to_rgb_def hex_byte_def hex_value_def lerp_def rgb_to_hex_rounded_def round_def
      format_02X_def hex_digit_char_def Let_def)

text \<open>
  Claim C1 at the sequential palette \<open>[#000000, #630000]\<close> with count 5. The second sample
  is at \<open>1/4\<close>, where the red channel times 255 is \<open>99 / 4 = 24.75\<close> on the continuous
  gradient (and about \<open>24.85\<close> in matplotlib's 256-entry table). Whenever the product the
  code computes for it lies in \<open>[24, 25)\<close>, line 74 truncates it to 24 and the code
  writes \<open>#180000\<close>, where sampling the gradient and rounding to the nearest integer
  gives \<open>#190000\<close>.
\<close>

theorem interpolation_truncates:
  assumes "normalize_identifier (str_lower rt) pls identifier = Inr (key, p)"
    and "ptype p = Some ''sequential'' \<or> ptype p = Some ''diverging''"
    and "hex p = Some [''#000000'', ''#630000'']"
    and "get_or (color_count p) 2 = 2"
    and "from_list rt [''#000000'', ''#630000''] 256 = Inr cmap"
    and "linspace rt 5 = Inr [0, 1 / 4, 1 / 2, 3 / 4, 1]"
    and "cmap (1 / 4) = (r, g, b)"
    and "24 \<le> float_mul rt r 255" "float_mul rt r 255 < 25"
    and "0 \<le> float_mul rt g 255" "float_mul rt g 255 < 1"
    and "0 \<le> float_mul rt b 255" "float_mul rt b 255 < 1"
  shows "\<exists>cs. get_palette rt pls identifier (Some 5) 1 = Inr cs \<and> length cs = 5
     \<and> cs ! 1 = ''#180000''
     \<and> interpolate_rounded [''#000000'', ''#630000''] 5 ! 1 = ''#190000''
     \<and> cs ! 1 \<noteq> interpolate_rounded [''#000000'', ''#630000''] 5 ! 1"
proof -
  let ?base = "[''#000000'', ''#630000'']"
  let ?cs = "map (\<lambda>x. rgb_to_hex_int (float_mul rt) (cmap x)) [0, 1 / 4, 1 / 2, 3 / 4, 1]"
  have "interpolate_colors rt ?base 5 = Inr ?cs"
    using assms(5,6) by (simp add: interpolate_colors_def)
  moreover have "get_or (color_count p) (int (length ?base)) = 2"
    using assms(4) by simp
  moreover have "get_or (ptype p) ''qualitative'' = ''sequential''
      \<or> get_or (ptype p) ''qualitative'' = ''diverging''"
    using assms(2) by (auto simp: get_or_def)
  ultimately have g: "get_palette rt pls identifier (Some 5) 1 = Inr ?cs"
    using assms(1,3) by (auto simp: get_palette_def Let_def get_or_def [of "Some ?base"])
  have "?cs ! 1 = rgb_to_hex_int (float_mul rt) (r, g, b)"
    using assms(7) by simp
  also have "\<dots> = ''#180000''"
    using assms(8-13) by (rule rgb_to_hex_int_180000)
  finally have s: "?cs ! 1 = ''#180000''" .
  have l: "length ?cs = 5" by simp
  from g l s interpolate_rounded_second show ?thesis
    by (intro exI [of _ ?cs]) simp
qed

lemma one_palette_resolve:
  "normalize_identifier (str_lower exact_runtime) one_palette (IntId 1) = Inr (''s'', pal_s)"
  by (simp add: one_palette_def)

theorem interpolation_truncates_witness:
  "\<exists>cs. get_palette exact_runtime one_palette (IntId 1) (Some 5) 1 = Inr cs \<and> length cs = 5
     \<and> cs ! 1 = ''#180000''
     \<and> interpolate_rounded [''#000000'', ''#630000''] 5 ! 1 = ''#190000''"
proof -
  let ?base = "[''#000000'', ''#630000'']"
  let ?cmap = "gradient (map to_rgb ?base)"
  have p: "ptype pal_s = Some ''sequential'' \<or> ptype pal_s = Some ''diverging''"
    "hex pal_s = Some ?base" "get_or (color_count pal_s) 2 = 2"
    by (simp_all add: pal_s_def get_or_def)
  have f: "from_list exact_runtime ?base 256 = Inr ?cmap"
    by (simp add: exact_runtime_def exact_colormap_def canonical_hex_def is_upper_hexdigit_def)
  have l: "linspace exact_runtime 5 = Inr [0, 1 / 4, 1 / 2, 3 / 4, 1]"
    by (simp add: exact_runtime_def exact_linspace_def evenly_spaced_def upt_conv_Cons)
  have c: "?cmap (1 / 4) = (33 / 340, 0, 0)"
    by (simp add: gradient_def lerp_def to_rgb_def hex_byte_def hex_value_def Let_def)
  have m: "24 \<le> float_mul exact_runtime (33 / 340) 255"
    "float_mul exact_runtime (33 / 340) 255 < 25"
    "0 \<le> float_mul exact_runtime 0 255" "float_mul exact_runtime 0 255 < 1"
    by (simp_all add: exact_runtime_def)
  from interpolation_truncates [OF one_palette_resolve p f l c m(1,2,3,4,3,4)]
  show ?thesis by auto
qed

section \<open>Properties of the centre-out selection\<close>

lemma set_window_extend_left:
  assumes "Suc lo + len \<le> length xs"
  shows "set (window xs lo (Suc len)) = insert (xs ! lo) (set (window xs (Suc lo) len))"
proof -
  have "lo < length xs" using assms by simp
  then have "drop lo xs = xs ! lo # drop (Suc lo) xs" by (simp add: Cons_nth_drop_Suc)
  then show ?thesis by (simp add: window_def)
qed

lemma set_window_extend_right:
  assumes "lo + len < length xs"
  shows "set (window xs lo (Suc len)) = insert (xs ! (lo + len)) (set (window xs lo len))"
proof -
  have "take (Suc len) (drop lo xs) = take len (drop lo xs) @ [drop lo xs ! len]"
    using assms by (intro take_Suc_conv_app_nth) simp
  moreover have "drop lo xs ! len = xs ! (lo + len)" using assms by simp
  ultimately show ?thesis by (simp add: window_def)
qed

lemma center_out_loop_window:
  fixes base :: "string list" and mid k :: nat
  defines "m \<equiv> length base"
  assumes mid: "mid = (m - 1) div 2"
    and n: "int (Suc (2 * k)) \<le> n" "n < int m"
    and out: "length out = Suc (2 * k)" "set out = set (window base (mid - k) (Suc (2 * k)))"
  shows "\<exists>out'. center_out_loop base n (int mid - 1 - int k) (mid + 1 + k) out = Inr out'
    \<and> length out' = nat n \<and> set out' = set (window base (mid - nat n div 2) (nat n))"
  using n out
proof (induction "nat n - Suc (2 * k)" arbitrary: k out rule: less_induct)
  case less
  show ?case
  proof (cases "n = int (Suc (2 * k))")
    case True
    then have "nat n div 2 = k" "nat n = Suc (2 * k)" by auto
    moreover have "center_out_loop base n (int mid - 1 - int k) (mid + 1 + k) out = Inr out"
      using True less.prems(3) by (subst center_out_loop.simps) simp
    ultimately show ?thesis using less.prems by simp
  next
    case False
    then have n2: "int (Suc (2 * k)) + 1 \<le> n" using less.prems(1) by simp
    then have m4: "2 * k + 3 \<le> m" using less.prems(2) by simp
    then have kmid: "k < mid" using mid by simp
    let ?li = "int mid - 1 - int k"
    let ?out1 = "out @ [base ! (mid - 1 - k)]"
    have midm: "mid < length base" using mid m4 by (simp add: m_def)
    have li: "0 \<le> ?li" "?li < int (length base)" "nat ?li = mid - 1 - k"
      using kmid midm by linarith+
    have len1: "length ?out1 = 2 * k + 2" using less.prems(3) by simp
    have "Suc (mid - Suc k) + Suc (2 * k) \<le> length base"
      using kmid mid m4 by (simp add: m_def)
    then have "set (window base (mid - Suc k) (Suc (Suc (2 * k))))
        = insert (base ! (mid - Suc k)) (set (window base (Suc (mid - Suc k)) (Suc (2 * k))))"
      by (rule set_window_extend_left)
    moreover have "Suc (mid - Suc k) = mid - k" using kmid by simp
    ultimately have set1: "set ?out1 = set (window base (mid - Suc k) (2 * k + 2))"
      using less.prems(4) by simp
    show ?thesis
    proof (cases "n = int (2 * k + 2)")
      case True
      then have "nat n div 2 = Suc k" "nat n = 2 * k + 2" by auto
      moreover have "center_out_loop base n ?li (mid + 1 + k) out = Inr ?out1"
        using True less.prems(3) li by (subst center_out_loop.simps) (simp add: Let_def)
      ultimately show ?thesis using len1 set1 by simp
    next
      case False
      then have n3: "int (Suc (2 * Suc k)) \<le> n" using n2 by simp
      then have m5: "2 * k + 4 \<le> m" using less.prems(2) by simp
      let ?ri = "mid + 1 + k"
      let ?out2 = "?out1 @ [base ! ?ri]"
      have ri: "?ri < length base" "\<not> length base \<le> ?ri + 1"
        using mid m5 by (auto simp: m_def)
      have step: "center_out_loop base n ?li ?ri out
          = center_out_loop base n (int mid - 1 - int (Suc k)) (mid + 1 + Suc k) ?out2"
        using n3 less.prems(3) li ri
        by (subst center_out_loop.simps) (simp add: Let_def algebra_simps)
      have len2: "length ?out2 = Suc (2 * Suc k)" using less.prems(3) by simp
      have "mid - Suc k + (2 * k + 2) < length base"
        using kmid ri by simp
      then have ext: "set (window base (mid - Suc k) (Suc (2 * k + 2)))
          = insert (base ! (mid - Suc k + (2 * k + 2))) (set (window base (mid - Suc k) (2 * k + 2)))"
        by (rule set_window_extend_right)
      have eq: "mid - Suc k + (2 * k + 2) = ?ri" using kmid by simp
      have "set ?out2 = insert (base ! ?ri) (set ?out1)" by auto
      also have "\<dots> = set (window base (mid - Suc k) (Suc (2 * k + 2)))"
        by (simp only: ext eq set1)
      also have "Suc (2 * k + 2) = Suc (2 * Suc k)" by simp
      finally have set2: "set ?out2 = set (window base (mid - Suc k) (Suc (2 * Suc k)))" .
      have "nat n - Suc (2 * Suc k) < nat n - Suc (2 * k)" using n3 by simp
      from less.hyps [OF this n3 less.prems(2) len2 set2] step
      show ?thesis by simp
    qed
  qed
qed

lemma index_nth_distinct:
  "distinct xs \<Longrightarrow> i < length xs \<Longrightarrow> index xs (xs ! i) = Some i"
proof (induction xs arbitrary: i)
  case Nil
  then show ?case by simp
next
  case (Cons x xs)
  show ?case
  proof (cases i)
    case 0
    then show ?thesis by simp
  next
    case (Suc j)
    with Cons.prems have "xs ! j \<in> set xs" "x \<notin> set xs" by auto
    then have "x \<noteq> xs ! j" by auto
    with Cons Suc show ?thesis by simp
  qed
qed

lemma index_in_set: "c \<in> set xs \<Longrightarrow> \<exists>i. index xs c = Some i"
  by (induction xs) auto

lemma those_map_Some:
  "(\<And>x. x \<in> set xs \<Longrightarrow> g x = Some (h x)) \<Longrightarrow> those (map g xs) = Some (map h xs)"
  by (induction xs) auto

lemma window_nth_map:
  assumes "lo + len \<le> length xs"
  shows "window xs lo len = map (\<lambda>i. xs ! i) [lo..<lo + len]"
  using assms by (auto simp: window_def list_eq_iff_nth_eq)

lemma sorted_index_pairs:
  fixes f :: "nat \<Rightarrow> 'b::linorder"
  shows "sorted (map (\<lambda>i. (i, f i)) [lo..<hi])"
  by (auto simp: sorted_map sorted_wrt_iff_nth_less less_eq_prod_def)

lemma distinct_index_pairs: "distinct (map (\<lambda>i. (i, f i)) [lo..<hi])"
  by (auto simp: distinct_map inj_on_def)

lemma sort_by_index:
  fixes base :: "string list"
  assumes d: "distinct base" and w: "lo + len \<le> length base"
    and l: "length out = len" and s: "set out = set (window base lo len)"
  shows "map snd (sort (zip (map (\<lambda>c. the (index base c)) out) out)) = window base lo len"
proof -
  let ?f = "\<lambda>c. (the (index base c), c)"
  let ?W = "map (\<lambda>i. (i, base ! i)) [lo..<lo + len]"
  have zip: "zip (map (\<lambda>c. the (index base c)) out) out = map ?f out"
    by (induction out) auto
  have dw: "distinct (window base lo len)"
    using d by (simp add: window_def)
  have "card (set out) = length out"
    using s l w dw by (simp add: distinct_card window_def)
  then have dout: "distinct out" by (rule card_distinct)
  have "inj_on ?f (set out)" by (auto simp: inj_on_def)
  then have dP: "distinct (map ?f out)" using dout by (simp add: distinct_map)
  have "set (map ?f out) = ?f ` set (window base lo len)" using s by simp
  also have "\<dots> = ?f ` (\<lambda>i. base ! i) ` {lo..<lo + len}"
    using w by (simp add: window_nth_map)
  also have "\<dots> = (\<lambda>i. (i, base ! i)) ` {lo..<lo + len}"
  proof -
    have "?f (base ! i) = (i, base ! i)" if "i \<in> {lo..<lo + len}" for i
      using that w d by (simp add: index_nth_distinct)
    then show ?thesis by (auto simp: image_image)
  qed
  finally have sP: "set (sort (map ?f out)) = set ?W" by simp
  have "sort (map ?f out) = ?W"
    by (rule sorted_distinct_set_unique)
      (use sP dP in \<open>auto simp: sorted_index_pairs distinct_index_pairs simp del: set_map set_upt\<close>)
  then have "map snd (sort (zip (map (\<lambda>c. the (index base c)) out) out)) = map snd ?W"
    by (simp only: zip)
  also have "\<dots> = window base lo len" using w by (simp add: window_nth_map comp_def)
  finally show ?thesis .
qed

lemma diverging_center_out_distinct:
  fixes base :: "string list"
  assumes d: "distinct base" and n: "1 \<le> n" "n < int (length base)"
  shows "diverging_center_out base n
    = Inr (window base ((length base - 1) div 2 - nat n div 2) (nat n))"
proof (cases "n = 1")
  case True
  have "(length base - 1) div 2 < length base" using n by auto
  then have "window base ((length base - 1) div 2) 1 = [base ! ((length base - 1) div 2)]"
    by (simp add: window_def take_Suc_conv_app_nth)
  moreover have "nat ((int (length base) - 1) div 2) = (length base - 1) div 2"
    using n by (simp add: nat_div_distrib nat_diff_distrib)
  ultimately show ?thesis using True n by (simp add: diverging_center_out_def Let_def)
next
  case False
  let ?m = "length base"
  let ?mid = "(?m - 1) div 2"
  let ?lo = "?mid - nat n div 2"
  have midn: "nat ((int ?m - 1) div 2) = ?mid" "(int ?m - 1) div 2 = int ?mid"
    using n by (simp_all add: nat_div_distrib nat_diff_distrib zdiv_int of_nat_diff)
  have init: "length [base ! ?mid] = Suc (2 * 0)"
    "set [base ! ?mid] = set (window base (?mid - 0) (Suc (2 * 0)))"
    using n by (simp_all add: window_def take_Suc_conv_app_nth)
  have "int (Suc (2 * 0)) \<le> n" using n by simp
  from center_out_loop_window [OF refl this n(2) init]
  obtain out where out: "center_out_loop base n (int ?mid - 1) (?mid + 1) [base ! ?mid] = Inr out"
    "length out = nat n" "set out = set (window base ?lo (nat n))"
    by auto
  have w: "?lo + nat n \<le> ?m" using n by linarith
  have "set out \<subseteq> set base" using out(3) by (auto simp: window_def dest: in_set_takeD in_set_dropD)
  then have "\<And>c. c \<in> set out \<Longrightarrow> index base c = Some (the (index base c))"
    using index_in_set [of _ base] by fastforce
  then have th: "those (map (index base) out) = Some (map (\<lambda>c. the (index base c)) out)"
    by (rule those_map_Some)
  have srt: "map snd (sort (zip (map (\<lambda>c. the (index base c)) out) out)) = window base ?lo (nat n)"
    using d w out(2,3) by (rule sort_by_index)
  have sl: "slice_to n (window base ?lo (nat n)) = window base ?lo (nat n)"
    using n by (simp add: slice_to_def window_def)
  have loop: "center_out_loop base n ((int ?m - 1) div 2 - 1) (nat ((int ?m - 1) div 2 + 1)) [base ! nat ((int ?m - 1) div 2)] = Inr out"
    using out(1) midn by (simp add: nat_add_distrib)
  have "base \<noteq> []" using n by auto
  then show ?thesis
    using False n loop th srt sl by (simp add: diverging_center_out_def Let_def)
qed

lemma dup_loop:
  "center_out_loop [''#111111'', ''#222222'', ''#333333'', ''#222222'', ''#111111''] 3 1 3 [''#333333'']
    = Inr [''#333333'', ''#222222'', ''#222222'']"
  by (simp add: center_out_loop.simps Let_def)

lemma dup_sort:
  "sort [(2::nat, ''#333333''), (1, ''#222222''), (1, ''#222222'')]
    = [(1, ''#222222''), (1, ''#222222''), (2, ''#333333'')]"
  by (simp add: less_eq_prod_def insort_key.simps)

text \<open>
  Claim C2 at a diverging palette that repeats colours, \<open>[#111111, #222222, #333333,
  #222222, #111111]\<close> with count 3: the picks are positions 2, 1 and 3, and
  \<open>base.index\<close> finds both \<open>#222222\<close> at position 1, so the result is \<open>[#222222, #222222,
  #333333]\<close> and not the run of positions 1 to 3, \<open>[#222222, #333333, #222222]\<close>.
\<close>

theorem get_palette_diverging_duplicates:
  "get_palette rt two_palettes (StrId ''b'') (Some 3) 1
     = Inr [''#222222'', ''#222222'', ''#333333'']
   \<and> window [''#111111'', ''#222222'', ''#333333'', ''#222222'', ''#111111''] 1 3
     = [''#222222'', ''#333333'', ''#222222'']"
proof -
  have r: "normalize_identifier (str_lower rt) two_palettes (StrId ''b'') = Inr (''b'', pal_b)"
    by (simp add: two_palettes_def)
  have d: "diverging_center_out [''#111111'', ''#222222'', ''#333333'', ''#222222'', ''#111111''] 3
      = Inr [''#222222'', ''#222222'', ''#333333'']"
    by (simp add: diverging_center_out_def Let_def dup_loop dup_sort slice_to_def)
  have g: "get_palette rt two_palettes (StrId ''b'') (Some 3) 1
     = Inr [''#222222'', ''#222222'', ''#333333'']"
    by (simp add: get_palette_def r pal_b_def get_or_def d)
  show ?thesis using g by (simp add: window_def)
qed

text \<open>
  Where the base colours are pairwise distinct, the result for a count \<open>1 \<le> n < m\<close> is
  the run of \<open>n\<close> base colours from position \<open>mid - n div 2\<close> in base order, with
  \<open>mid = (m - 1) div 2\<close> inside it.
\<close>

theorem get_palette_diverging_window:
  fixes base :: "string list"
  assumes "normalize_identifier (str_lower rt) pls identifier = Inr (key, p)"
    and "ptype p = Some ''diverging''"
    and "hex p = Some base" and "distinct base"
    and "get_or (color_count p) (int (length base)) = int (length base)"
    and "1 \<le> n" "n < int (length base)"
  shows "get_palette rt pls identifier (Some n) 1
      = Inr (window base ((length base - 1) div 2 - nat n div 2) (nat n))
    \<and> (length base - 1) div 2 - nat n div 2 \<le> (length base - 1) div 2
    \<and> (length base - 1) div 2 < (length base - 1) div 2 - nat n div 2 + nat n
    \<and> (length base - 1) div 2 - nat n div 2 + nat n \<le> length base"
proof -
  have "diverging_center_out base n
      = Inr (window base ((length base - 1) div 2 - nat n div 2) (nat n))"
    using assms(4,6,7) by (rule diverging_center_out_distinct)
  then have "get_palette rt pls identifier (Some n) 1
      = Inr (window base ((length base - 1) div 2 - nat n div 2) (nat n))"
    using assms by (simp add: get_palette_def get_or_def)
  moreover have "(length base - 1) div 2 < (length base - 1) div 2 - nat n div 2 + nat n"
    "(length base - 1) div 2 - nat n div 2 + nat n \<le> length base"
    using assms(6,7) by linarith+
  ultimately show ?thesis by simp
qed

section \<open>Properties of the loaders\<close>

lemma load_text_effect:
  "load_text f st = (r, st') \<Longrightarrow>
     package_files st' = package_files st \<and> fallback_files st' = fallback_files st
     \<and> (case r of None \<Rightarrow> reads st' = reads st | Some t \<Rightarrow> \<exists>e. reads st' = reads st @ [e])"
  by (auto simp: load_text_def read_text_from_package_def read_text_fallback_def
      split: option.splits)

lemma load_text_result:
  "package_files st2 = package_files st \<Longrightarrow> fallback_files st2 = fallback_files st \<Longrightarrow>
     fst (load_text f st2) = fst (load_text f st)"
  by (auto simp: load_text_def read_text_from_package_def read_text_fallback_def
      split: option.splits)

lemma load_json_effect:
  "load_json loads f st = (r, st') \<Longrightarrow>
     package_files st' = package_files st \<and> fallback_files st' = fallback_files st
     \<and> (r = Inl FileNotFoundError \<and> reads st' = reads st \<or> (\<exists>e. reads st' = reads st @ [e]))"
  using load_text_effect [of f st]
  by (auto simp: load_json_def split: prod.splits option.splits)

lemma load_json_ok_reads:
  assumes "load_json loads f st = (Inr x, st')"
  shows "\<exists>e. reads st' = reads st @ [e]"
  using load_json_effect [OF assms] by auto

lemma load_json_result:
  assumes "package_files st2 = package_files st" "fallback_files st2 = fallback_files st"
  shows "fst (load_json loads f st2) = fst (load_json loads f st)"
  using load_text_result [OF assms, of f]
  by (auto simp: load_json_def split: prod.splits option.splits)

lemma load_chinacolor_effect:
  assumes "load_chinacolor read_rows loads st = (r, st')"
  shows "package_files st' = package_files st \<and> fallback_files st' = fallback_files st
     \<and> ((\<exists>x. r = Inr x) \<longrightarrow> (\<exists>e. reads st' = reads st @ [e]))"
proof (cases "load_text ''chinacolor.csv'' st")
  case (Pair t st1)
  note lt = load_text_effect [OF Pair]
  show ?thesis
  proof (cases t)
    case (Some csv_text)
    with Pair assms lt show ?thesis
      by (auto simp: load_chinacolor_def split: sum.splits)
  next
    case None
    obtain r2 st2 where j: "load_json loads ''chinacolor.json'' st1 = (r2, st2)"
      by (cases "load_json loads ''chinacolor.json'' st1")
    from load_json_effect [OF j] None Pair assms lt j show ?thesis
      by (auto simp: load_chinacolor_def split: sum.splits)
  qed
qed

lemma load_chinacolor_result:
  assumes "package_files st2 = package_files st" "fallback_files st2 = fallback_files st"
  shows "fst (load_chinacolor read_rows loads st2) = fst (load_chinacolor read_rows loads st)"
proof -
  obtain t st1 where a: "load_text ''chinacolor.csv'' st = (t, st1)"
    by (cases "load_text ''chinacolor.csv'' st")
  obtain t2 st3 where b: "load_text ''chinacolor.csv'' st2 = (t2, st3)"
    by (cases "load_text ''chinacolor.csv'' st2")
  from load_text_result [OF assms, of "''chinacolor.csv''"] a b have t: "t2 = t" by simp
  from load_text_effect [OF a] load_text_effect [OF b] assms
  have f: "package_files st3 = package_files st1" "fallback_files st3 = fallback_files st1"
    by auto
  show ?thesis
    using a b t load_json_result [OF f, of loads "''chinacolor.json''"]
    by (auto simp: load_chinacolor_def split: option.splits sum.splits prod.splits)
qed

text \<open>
  Claim C3, as amended. \<open>load_palette_list\<close> and \<open>load_chinacolor\<close> keep no cache: a
  call leaves the files as they are, a successful call reads one file (the log of reads
  grows by one entry on every such call), and the result is a function of the file
  contents alone, so repeated calls return equal collections as long as the files do not
  change.
\<close>

theorem loaders_read_on_every_call:
  "package_files (snd (load_palette_list loads st)) = package_files st
   \<and> fallback_files (snd (load_palette_list loads st)) = fallback_files st
   \<and> ((\<exists>x. fst (load_palette_list loads st) = Inr x) \<longrightarrow>
        (\<exists>e. reads (snd (load_palette_list loads st)) = reads st @ [e]))
   \<and> (package_files st2 = package_files st \<and> fallback_files st2 = fallback_files st \<longrightarrow>
        fst (load_palette_list loads st2) = fst (load_palette_list loads st))
   \<and> package_files (snd (load_chinacolor read_rows loads' st)) = package_files st
   \<and> fallback_files (snd (load_chinacolor read_rows loads' st)) = fallback_files st
   \<and> ((\<exists>x. fst (load_chinacolor read_rows loads' st) = Inr x) \<longrightarrow>
        (\<exists>e. reads (snd (load_chinacolor read_rows loads' st)) = reads st @ [e]))
   \<and> (package_files st2 = package_files st \<and> fallback_files st2 = fallback_files st \<longrightarrow>
        fst (load_chinacolor read_rows loads' st2) = fst (load_chinacolor read_rows loads' st))"
proof -
  obtain r st' where p: "load_json loads ''palette_list.json'' st = (r, st')"
    by (cases "load_json loads ''palette_list.json'' st")
  obtain rc stc where c: "load_chinacolor read_rows loads' st = (rc, stc)"
    by (cases "load_chinacolor read_rows loads' st")
  have 1: "package_files st' = package_files st \<and> fallback_files st' = fallback_files st
     \<and> ((\<exists>x. r = Inr x) \<longrightarrow> (\<exists>e. reads st' = reads st @ [e]))"
    using load_json_effect [OF p] by auto
  have 2: "package_files st2 = package_files st \<and> fallback_files st2 = fallback_files st \<longrightarrow>
        fst (load_json loads ''palette_list.json'' st2) = r"
    using load_json_result [of st2 st loads "''palette_list.json''"] p by auto
  have 3: "package_files st2 = package_files st \<and> fallback_files st2 = fallback_files st \<longrightarrow>
        fst (load_chinacolor read_rows loads' st2) = rc"
    using load_chinacolor_result [of st2 st read_rows loads'] c by auto
  show ?thesis
    using 1 2 3 load_chinacolor_effect [OF c] p c by (simp add: load_palette_list_def)
qed

lemma storage0_first:
  "load_palette_list loads_ab storage0
     = (Inr two_palettes, storage0\<lparr>reads := [''package/palette_list.json'']\<rparr>)"
  by (simp add: load_palette_list_def load_json_def load_text_def read_text_from_package_def
      storage0_def loads_ab_def)

lemma storage0_second:
  "load_palette_list loads_ab (storage0\<lparr>reads := [''package/palette_list.json'']\<rparr>)
     = (Inr two_palettes,
        storage0\<lparr>reads := [''package/palette_list.json'', ''package/palette_list.json'']\<rparr>)"
  by (simp add: load_palette_list_def load_json_def load_text_def read_text_from_package_def
      storage0_def loads_ab_def)

lemma storage0_changed:
  "fst (load_palette_list loads_ab
      (storage0\<lparr>reads := [''package/palette_list.json''],
                package_files := [''palette_list.json'' \<mapsto> ''B'']\<rparr>)) = Inr one_palette"
  by (simp add: load_palette_list_def load_json_def load_text_def read_text_from_package_def
      storage0_def loads_ab_def)

theorem loaders_read_on_every_call_witness:
  "fst (load_palette_list loads_ab storage0) = Inr two_palettes
   \<and> (\<exists>e. reads (snd (load_palette_list loads_ab storage0)) = reads storage0 @ [e])
   \<and> fst (load_palette_list loads_ab (storage0\<lparr>reads := [''package/palette_list.json'']\<rparr>))
       = fst (load_palette_list loads_ab storage0)"
proof -
  let ?st2 = "storage0\<lparr>reads := [''package/palette_list.json'']\<rparr>"
  have ok: "\<exists>x. fst (load_palette_list loads_ab storage0) = Inr x"
    by (simp add: storage0_first)
  have same: "package_files ?st2 = package_files storage0
      \<and> fallback_files ?st2 = fallback_files storage0"
    by simp
  from loaders_read_on_every_call [of loads_ab storage0 ?st2] ok same
  show ?thesis by (simp add: storage0_first)
qed

text \<open>
  Claim C3 as stated fails: the second call reads the palette file again, and a call
  made after the file has changed returns the new contents.
\<close>

theorem process_cache_counterexample:
  "fst (load_palette_list loads_ab storage0) = Inr two_palettes
   \<and> reads (snd (load_palette_list loads_ab storage0)) = [''package/palette_list.json'']
   \<and> reads (snd (load_palette_list loads_ab (snd (load_palette_list loads_ab storage0))))
       = [''package/palette_list.json'', ''package/palette_list.json'']
   \<and> fst (load_palette_list loads_ab
        ((snd (load_palette_list loads_ab storage0))
           \<lparr>package_files := [''palette_list.json'' \<mapsto> ''B'']\<rparr>)) = Inr one_palette
   \<and> snd one_palette \<noteq> snd two_palettes"
  using storage0_changed
  by (simp add: storage0_first storage0_second one_palette_def two_palettes_def)

section \<open>Properties of custom_palette\<close>



lemma color_ids_loop_filter:
  "color_ids_loop bc (filter (\<lambda>cid. id_to_hex bc (Some cid) \<noteq> None) ids) chosen
     = color_ids_loop bc ids chosen"
  by (induction ids arbitrary: chosen) auto

lemma names_loop_filter:
  "names_loop bc (filter (\<lambda>nm. name_to_hex bc (Some nm) \<noteq> None) names) chosen
     = names_loop bc names chosen"
  by (induction names arbitrary: chosen) (auto split: sum.splits)

lemma hexes_loop_filter:
  "hexes_loop other (filter (\<lambda>hx. \<not> isl (to_hex other hx)) hexes) chosen
     = hexes_loop other hexes chosen"
  by (induction hexes arbitrary: chosen) (auto split: sum.splits)




lemma chosen_colors_filter:
  "chosen_colors other bc
     (filter (\<lambda>cid. id_to_hex bc (Some cid) \<noteq> None) ids)
     (filter (\<lambda>nm. name_to_hex bc (Some nm) \<noteq> None) names)
     (filter (\<lambda>hx. \<not> isl (to_hex other hx)) hexes) groups subgroups
   = chosen_colors other bc ids names hexes groups subgroups"
  by (simp only: chosen_colors_def color_ids_loop_filter names_loop_filter hexes_loop_filter)


lemma custom_palette_nothing:
  "custom_palette other bc [] [] [] None subgroups order n direction = Inl no_colors_selected"
  by (simp add: custom_palette_def chosen_colors_def)


text \<open>
  Claim C10. Dropping the ids that are not in the dataset, the names that match no
  colour and the hex strings that \<open>to_hex\<close> rejects does not change the result, whatever
  the other arguments are; and when every id, name and hex string is of that kind and no
  group is selected, the call fails with the "No colors selected" error.
\<close>

theorem custom_palette_skips_unmatched:
  "custom_palette other bc ids names hexes groups subgroups order n direction
     = custom_palette other bc
         (filter (\<lambda>cid. id_to_hex bc (Some cid) \<noteq> None) ids)
         (filter (\<lambda>nm. name_to_hex bc (Some nm) \<noteq> None) names)
         (filter (\<lambda>hx. \<not> isl (to_hex other hx)) hexes)
         groups subgroups order n direction
   \<and> ((\<forall>cid \<in> set ids. id_to_hex bc (Some cid) = None)
        \<and> (\<forall>nm \<in> set names. name_to_hex bc (Some nm) = None)
        \<and> (\<forall>hx \<in> set hexes. isl (to_hex other hx))
      \<longrightarrow> custom_palette other bc ids names hexes None subgroups order n direction
            = Inl no_colors_selected)"
proof (intro conjI impI)
  show "custom_palette other bc ids names hexes groups subgroups order n direction
     = custom_palette other bc
         (filter (\<lambda>cid. id_to_hex bc (Some cid) \<noteq> None) ids)
         (filter (\<lambda>nm. name_to_hex bc (Some nm) \<noteq> None) names)
         (filter (\<lambda>hx. \<not> isl (to_hex other hx)) hexes)
         groups subgroups order n direction"
    by (simp only: custom_palette_def chosen_colors_filter)
next
  assume a: "(\<forall>cid \<in> set ids. id_to_hex bc (Some cid) = None)
        \<and> (\<forall>nm \<in> set names. name_to_hex bc (Some nm) = None)
        \<and> (\<forall>hx \<in> set hexes. isl (to_hex other hx))"
  then have f: "filter (\<lambda>cid. id_to_hex bc (Some cid) \<noteq> None) ids = []"
    "filter (\<lambda>nm. name_to_hex bc (Some nm) \<noteq> None) names = []"
    "filter (\<lambda>hx. \<not> isl (to_hex other hx)) hexes = []"
    by (simp_all add: filter_empty_conv)
  have "chosen_colors other bc ids names hexes None subgroups
      = chosen_colors other bc [] [] [] None subgroups"
    using chosen_colors_filter [of other bc ids names hexes None subgroups]
    by (simp only: f)
  then have "custom_palette other bc ids names hexes None subgroups order n direction
      = custom_palette other bc [] [] [] None subgroups order n direction"
    by (simp only: custom_palette_def)
  then show "custom_palette other bc ids names hexes None subgroups order n direction
            = Inl no_colors_selected"
    by (simp only: custom_palette_nothing)
qed

lemma two_colors_ids:
  "id_to_hex two_colors (Some 5) = Some ''#0000FF''" "id_to_hex two_colors (Some 1) = Some ''#FF0000''"
  "id_to_hex two_colors (Some 7) = None"
  by (simp_all add: id_to_hex_def two_colors_def c1_def c5_def truthy_hex_def get_or_def get_def)

lemma two_colors_names:
  "name_to_hex two_colors (Some ''green'') = None"
  by (simp add: name_to_hex_def two_colors_def c1_def c5_def truthy_hex_def get_or_def get_def)

lemma to_hex_zzz: "to_hex reject_other ''zzz'' = Inl (ValueError ''Unrecognized color: zzz'')"
  by (simp add: to_hex_def strip_def isspace_def re_match_hex_def startswith_def is_hexdigit_def
      reject_other_def)

lemma custom_5_1_5:
  "custom_palette reject_other two_colors [5, 1, 5] [] [] None None 1 None 1
     = Inr [''#0000FF'', ''#FF0000'']"
  by (simp add: custom_palette_def chosen_colors_def two_colors_ids Let_def)



theorem custom_palette_skips_unmatched_witness:
  "custom_palette reject_other two_colors [7, 5] [''green''] [''zzz''] None None 1 None 1
     = custom_palette reject_other two_colors [5] [] [] None None 1 None 1
   \<and> custom_palette reject_other two_colors [7] [''green''] [''zzz''] None None 1 None 1
     = Inl no_colors_selected"
proof -
  have u: "(\<forall>cid \<in> set [7]. id_to_hex two_colors (Some cid) = None)
        \<and> (\<forall>nm \<in> set [''green'']. name_to_hex two_colors (Some nm) = None)
        \<and> (\<forall>hx \<in> set [''zzz'']. isl (to_hex reject_other hx))"
    by (simp add: two_colors_ids two_colors_names to_hex_zzz)
  from custom_palette_skips_unmatched
    [of reject_other two_colors "[7, 5]" "[''green'']" "[''zzz'']" None None 1 None 1]
  have 1: "custom_palette reject_other two_colors [7, 5] [''green''] [''zzz''] None None 1 None 1
     = custom_palette reject_other two_colors [5] [] [] None None 1 None 1"
    by (simp add: two_colors_ids two_colors_names to_hex_zzz)
  from custom_palette_skips_unmatched
    [of reject_other two_colors "[7]" "[''green'']" "[''zzz'']" None None 1 None 1] u
  have 2: "custom_palette reject_other two_colors [7] [''green''] [''zzz''] None None 1 None 1
     = Inl no_colors_selected"
    by blast
  from 1 2 show ?thesis by simp
qed

end
